theory Spec2Isabelle
  imports Complex_Main
begin

section \<open>Errors and rows\<close>

text \<open>
  Go error values. The errors that index.go builds itself are constructors of their own;
  an error handed over by a collaborator (the store, the feature decoder, the placetype
  table) is \<open>External\<close> with its message.
\<close>

datatype error =
    MissingGeometry          \<comment> \<open>"Feature is missing a geometry"\<close>
  | DoSomethingHere          \<comment> \<open>"DO SOMETHING HERE"\<close>
  | UnknownGeometryFilter    \<comment> \<open>"unknown geometry filter"\<close>
  | CantFindCentroid         \<comment> \<open>"can't find centroid"\<close>
  | CantFindRepo int         \<comment> \<open>"can't find wof:repo for <id>"\<close>
  | MissingRepo int          \<comment> \<open>"missing wof:repo for <id>"\<close>
  | MissingPathColumn        \<comment> \<open>"missing 'path' column in meta file"\<close>
  | FailedToIndexFile        \<comment> \<open>"failed to index <path>, because ..."\<close>
  | External string

record PgisRow =
  Id :: int
  ParentId :: int
  PlacetypeId :: int
  IsSuperseded :: int
  IsDeprecated :: int
  Meta :: string
  Geom :: string
  Centroid :: string

section \<open>Connection budget\<close>

text \<open>
  \<open>client.conns\<close> is a buffered channel holding one token per free permit; the model keeps
  the number of tokens. \<open>dbconn\<close> receives one token (\<open><-client.conns\<close>) and blocks while
  the channel is empty: \<open>None\<close> is the call that never returns. Its error result is always
  nil, so only the remaining tokens are returned.
\<close>

definition dbconn :: "nat \<Rightarrow> nat option" where
  "dbconn conns = (if conns = 0 then None else Some (conns - 1))"

text \<open>
  \<open>CountIntersects\<close>: take a permit, run the count statement, scan the single row. The
  store's answer to \<open>QueryRow\<close> followed by \<open>Scan\<close> is the parameter \<open>answer\<close>. The result is
  the pair of what the function returns and the tokens left in \<open>client.conns\<close> when it
  returns; the function sends nothing back to the channel.
\<close>

definition CountIntersects :: "error + int \<Rightarrow> nat \<Rightarrow> ((error + int) \<times> nat) option" where
  "CountIntersects answer conns =
     (case dbconn conns of
        None \<Rightarrow> None
      | Some conns' \<Rightarrow> Some (answer, conns'))"

text \<open>\<open>GetById\<close>: take a permit, query one row, decode it with \<open>QueryRowToPgisRow\<close>.\<close>

definition GetById :: "error + PgisRow \<Rightarrow> nat \<Rightarrow> ((error + PgisRow) \<times> nat) option" where
  "GetById answer conns =
     (case dbconn conns of
        None \<Rightarrow> None
      | Some conns' \<Rightarrow> Some (answer, conns'))"

section \<open>Paginated fetch: page arithmetic\<close>

text \<open>
  \<open>iters\<close> is \<open>int(math.Ceil(float64(count_expected) / float64(limit)))\<close>. The reals stand for
  float64: for row counts and page sizes below \<open>2^53\<close> the float quotient is close enough to
  the real one for the ceiling to agree. For \<open>limit = 0\<close> Go's quotient is an infinity or
  NaN where the quotient of HOL is 0; the model reads \<open>iters\<close> only after the spawn loop
  has ended, which needs a positive \<open>limit\<close> or a negative count.
\<close>

definition iters :: "int \<Rightarrow> int \<Rightarrow> int" where
  "iters count_expected limit = \<lceil>real_of_int count_expected / real_of_int limit\<rceil>"

text \<open>
  The spawn loop \<open>for offset := 0; offset <= count_expected; offset += limit\<close>: the list
  of offsets for which a page task is started. With \<open>limit \<le> 0\<close> the offset never passes
  \<open>count_expected\<close> and the loop does not end: \<open>None\<close>. Go's \<open>int\<close> is taken unbounded (row
  counts stay far below \<open>2^63\<close>).
\<close>

function offsets_from :: "int \<Rightarrow> int \<Rightarrow> int \<Rightarrow> int list option" where
  "offsets_from offset count_expected limit =
     (if offset \<le> count_expected then
        (if limit \<le> 0 then None
         else map_option ((#) offset) (offsets_from (offset + limit) count_expected limit))
      else Some [])"
  by pat_completeness auto
termination
  by (relation "measure (\<lambda>(offset, count_expected, limit). nat (count_expected + 1 - offset))") auto

declare offsets_from.simps [simp del]

section \<open>The intersects query as interleaved goroutines\<close>

text \<open>
  \<open>IntersectsFeature\<close> runs in one goroutine (called main below) and starts two
  \<open>get_count\<close> goroutines, one per partition; \<open>FetchIntersectsAsync\<close> starts one goroutine
  per page. They meet on unbuffered channels, where a send completes only together with a
  receive by another goroutine, and on two buffered channels of tokens (\<open>client.conns\<close>
  and the \<open>throttle_ch\<close> of a fetch stage), kept as token counts. The state records where
  every goroutine stands; a step is either a move of one goroutine on its own or the
  meeting of a sender and a receiver.
\<close>

datatype partition = PGeom | PCentroid

datatype chan = geom_ch | centroid_ch | err_ch | done_ch | rows_ch | fetch_ch partition

datatype msg = MInt int | MErr error | MRow PgisRow | MTrue

text \<open>
  The options of one query and the store's answers to its statements. \<open>count_answer p\<close> is
  what \<open>QueryRow\<close> and \<open>Scan\<close> give for the count statement of partition \<open>p\<close>;
  \<open>page_answer p offset\<close> is what \<open>db.Query\<close> gives for the page at \<open>offset\<close> (with
  \<open>LIMIT PerPage\<close>): an error, or the cursor's rows, each as the result of its \<open>Scan\<close> in
  \<open>QueryRowToPgisRow\<close>.
\<close>

record query =
  PerPage :: int
  NumProcesses :: nat
  count_answer :: "partition \<Rightarrow> error + int"
  page_answer :: "partition \<Rightarrow> int \<Rightarrow> error + (error + PgisRow) list"

text \<open>Where a \<open>get_count\<close> goroutine stands.\<close>

datatype count_pc =
    GNotStarted
  | GStart                   \<comment> \<open>in \<open>CountIntersects\<close>, before \<open>dbconn\<close> has returned\<close>
  | GSendErr error           \<comment> \<open>\<open>err_ch <- err\<close>\<close>
  | GSendCount int           \<comment> \<open>\<open>count_ch <- count_rows\<close>\<close>
  | GSendDone                \<comment> \<open>deferred \<open>done_ch <- true\<close>\<close>
  | GFinished

text \<open>Where a page goroutine stands; \<open>PSendRow r rest\<close> keeps the rows still in the cursor.\<close>

datatype page_pc =
    PWait                                      \<comment> \<open>\<open><-throttle_ch\<close>\<close>
  | PSendErr error                             \<comment> \<open>\<open>err_ch <- err\<close>\<close>
  | PSendRow PgisRow "(error + PgisRow) list"  \<comment> \<open>\<open>rows_ch <- pg_row\<close>\<close>
  | PSendFetch                                 \<comment> \<open>deferred \<open>fetch_ch <- true\<close>\<close>
  | PFinished

record page_task =
  stage :: partition
  page_offset :: int
  ppc :: page_pc

text \<open>The local variables of \<open>IntersectsFeature\<close> that outlive the count loop.\<close>

record locals =
  count_geom :: int
  count_centroid :: int
  fetching :: int
  rows :: "PgisRow list"

text \<open>
  Where main stands. The three \<open>Fetch\<close> locations are inside the call of
  \<open>FetchIntersectsAsync\<close> for a partition, which \<open>IntersectsFeature\<close> makes as an ordinary
  call, in its own goroutine. A returned row list of \<open>None\<close> is the nil slice.
\<close>

datatype main_pc =
    CountLoop int int int int        \<comment> \<open>the first select loop: \<open>n\<close>, \<open>count_geom\<close>, \<open>count_centroid\<close>, \<open>count_total\<close>\<close>
  | FetchAcquire partition locals    \<comment> \<open>\<open>client.dbconn()\<close>\<close>
  | FetchDrain partition int locals  \<comment> \<open>\<open>for i := iters; i > 0;\<close> receiving on \<open>fetch_ch\<close>\<close>
  | FetchDone partition locals       \<comment> \<open>deferred \<open>done_ch <- true\<close>\<close>
  | FinalLoop int "PgisRow list"     \<comment> \<open>the second select loop: \<open>f\<close>, \<open>rows\<close>\<close>
  | Returned "PgisRow list option" "error option"

record state =
  main :: main_pc
  counters :: "partition \<Rightarrow> count_pc"
  pages :: "page_task list"
  conns :: nat
  throttle :: "partition \<Rightarrow> nat"

text \<open>
  The sequential control flow of main between two blocking points. A \<open>for\<close> loop whose
  condition is false on entry is left at once.
\<close>

definition final_loop :: "int \<Rightarrow> PgisRow list \<Rightarrow> main_pc" where
  "final_loop f rs = (if 0 < f then FinalLoop f rs else Returned (Some rs) None)"

definition enter_centroid :: "locals \<Rightarrow> main_pc" where
  "enter_centroid l =
     (if 0 < count_centroid l then FetchAcquire PCentroid l
      else final_loop (fetching l) (rows l))"

definition enter_geom :: "locals \<Rightarrow> main_pc" where
  "enter_geom l = (if 0 < count_geom l then FetchAcquire PGeom l else enter_centroid l)"

definition count_loop :: "int \<Rightarrow> int \<Rightarrow> int \<Rightarrow> int \<Rightarrow> main_pc" where
  "count_loop n cg cc ct =
     (if 0 < n then CountLoop n cg cc ct
      else enter_geom \<lparr>count_geom = cg, count_centroid = cc, fetching = 0, rows = []\<rparr>)"

definition drain :: "partition \<Rightarrow> int \<Rightarrow> locals \<Rightarrow> main_pc" where
  "drain p i l = (if 0 < i then FetchDrain p i l else FetchDone p l)"

text \<open>After \<open>FetchIntersectsAsync\<close> has returned: \<open>fetching += 1\<close>, then the next test.\<close>

definition after_stage :: "partition \<Rightarrow> locals \<Rightarrow> main_pc" where
  "after_stage p l =
     (let l' = l\<lparr>fetching := fetching l + 1\<rparr>
      in case p of PGeom \<Rightarrow> enter_centroid l'
                 | PCentroid \<Rightarrow> final_loop (fetching l') (rows l'))"

definition count_expected :: "partition \<Rightarrow> locals \<Rightarrow> int" where
  "count_expected p l = (case p of PGeom \<Rightarrow> count_geom l | PCentroid \<Rightarrow> count_centroid l)"

text \<open>The row loop of a page task: \<open>for r.Next()\<close>, decoding each row before sending it.\<close>

fun next_row :: "(error + PgisRow) list \<Rightarrow> page_pc" where
  "next_row [] = PSendFetch"
| "next_row (Inl e # rest) = PSendErr e"
| "next_row (Inr r # rest) = PSendRow r rest"

datatype gid = Main | Counter partition | Page nat

text \<open>The send a goroutine is blocked in, if it is blocked in one.\<close>

definition count_sending :: "partition \<Rightarrow> count_pc \<Rightarrow> (chan \<times> msg) option" where
  "count_sending p pc =
     (case pc of
        GSendErr e \<Rightarrow> Some (err_ch, MErr e)
      | GSendCount c \<Rightarrow> Some (case p of PGeom \<Rightarrow> geom_ch | PCentroid \<Rightarrow> centroid_ch, MInt c)
      | GSendDone \<Rightarrow> Some (done_ch, MTrue)
      | _ \<Rightarrow> None)"

definition page_sending :: "page_task \<Rightarrow> (chan \<times> msg) option" where
  "page_sending t =
     (case ppc t of
        PSendErr e \<Rightarrow> Some (err_ch, MErr e)
      | PSendRow r rest \<Rightarrow> Some (rows_ch, MRow r)
      | PSendFetch \<Rightarrow> Some (fetch_ch (stage t), MTrue)
      | _ \<Rightarrow> None)"

definition sending :: "state \<Rightarrow> gid \<Rightarrow> (chan \<times> msg) option" where
  "sending s g =
     (case g of
        Main \<Rightarrow> (case main s of FetchDone p l \<Rightarrow> Some (done_ch, MTrue) | _ \<Rightarrow> None)
      | Counter p \<Rightarrow> count_sending p (counters s p)
      | Page i \<Rightarrow> (if i < length (pages s) then page_sending (pages s ! i) else None))"

text \<open>
  The sender's side of a completed send. A page task whose deferred \<open>fetch_ch <- true\<close>
  is through puts its token back into \<open>throttle_ch\<close>, which has room for it.
\<close>

definition sent :: "gid \<Rightarrow> state \<Rightarrow> state" where
  "sent g s =
     (case g of
        Main \<Rightarrow> (case main s of FetchDone p l \<Rightarrow> s\<lparr>main := after_stage p l\<rparr> | _ \<Rightarrow> s)
      | Counter p \<Rightarrow>
          s\<lparr>counters := (counters s)(p := (case counters s p of GSendDone \<Rightarrow> GFinished | _ \<Rightarrow> GSendDone))\<rparr>
      | Page i \<Rightarrow>
          (let t = pages s ! i in
           case ppc t of
             PSendErr e \<Rightarrow> s\<lparr>pages := (pages s)[i := t\<lparr>ppc := PSendFetch\<rparr>]\<rparr>
           | PSendRow r rest \<Rightarrow> s\<lparr>pages := (pages s)[i := t\<lparr>ppc := next_row rest\<rparr>]\<rparr>
           | PSendFetch \<Rightarrow>
               s\<lparr>pages := (pages s)[i := t\<lparr>ppc := PFinished\<rparr>],
                 throttle := (throttle s)((stage t) := throttle s (stage t) + 1)\<rparr>
           | _ \<Rightarrow> s))"

text \<open>
  The receiver's side: where main goes when it receives \<open>m\<close> on \<open>c\<close>, or \<open>None\<close> when main is
  not at a receive on \<open>c\<close>. These are the three receiving statements of main: the two
  select loops of \<open>IntersectsFeature\<close> and the drain loop of \<open>FetchIntersectsAsync\<close>.
\<close>

definition main_receive :: "chan \<Rightarrow> msg \<Rightarrow> main_pc \<Rightarrow> main_pc option" where
  "main_receive c m pc =
     (case pc of
        CountLoop n cg cc ct \<Rightarrow>
          (case (c, m) of
             (geom_ch, MInt k) \<Rightarrow> Some (CountLoop n k cc (ct + k))
           | (centroid_ch, MInt k) \<Rightarrow> Some (CountLoop n cg k (ct + k))
           | (err_ch, MErr e) \<Rightarrow> Some (Returned None (Some e))
           | (done_ch, _) \<Rightarrow> Some (count_loop (n - 1) cg cc ct)
           | _ \<Rightarrow> None)
      | FetchDrain p i l \<Rightarrow> (if c = fetch_ch p then Some (drain p (i - 1) l) else None)
      | FinalLoop f rs \<Rightarrow>
          (case (c, m) of
             (rows_ch, MRow r) \<Rightarrow> Some (FinalLoop f (rs @ [r]))
           | (err_ch, MErr e) \<Rightarrow> Some (Returned None (Some e))
           | (done_ch, _) \<Rightarrow> Some (final_loop (f - 1) rs)
           | _ \<Rightarrow> None)
      | _ \<Rightarrow> None)"

text \<open>
  \<open>get_count\<close> and the page tasks receive on none of the unbuffered channels (a page task
  receives only from the buffered \<open>throttle_ch\<close>), so main is the only possible receiver.
\<close>

definition receive :: "chan \<Rightarrow> msg \<Rightarrow> gid \<Rightarrow> state \<Rightarrow> state option" where
  "receive c m h s =
     (case h of
        Main \<Rightarrow> map_option (\<lambda>pc. s\<lparr>main := pc\<rparr>) (main_receive c m (main s))
      | Counter p \<Rightarrow> None
      | Page i \<Rightarrow> None)"

datatype event =
    Sync gid gid       \<comment> \<open>the send of the first goroutine meets a receive of the second\<close>
  | CountRun partition \<comment> \<open>\<open>get_count\<close> gets through \<open>CountIntersects\<close>\<close>
  | MainAcquire        \<comment> \<open>main gets its permit in \<open>FetchIntersectsAsync\<close> and starts the pages\<close>
  | PageRun nat        \<comment> \<open>a page task gets a throttle token and runs its query\<close>

text \<open>
  One step. \<open>MainAcquire\<close> covers \<open>FetchIntersectsAsync\<close> from \<open>dbconn\<close> to the drain loop:
  nothing in between blocks, and the page tasks started there cannot move main. When the
  spawn loop does not end (\<open>offsets_from\<close> is \<open>None\<close>) main has no further step.
\<close>

definition step :: "query \<Rightarrow> event \<Rightarrow> state \<Rightarrow> state option" where
  "step q ev s =
     (case ev of
        Sync g h \<Rightarrow>
          (if g = h then None
           else case sending s g of
                  None \<Rightarrow> None
                | Some (c, m) \<Rightarrow> map_option (sent g) (receive c m h s))
      | CountRun p \<Rightarrow>
          (if counters s p = GStart then
             (case CountIntersects (count_answer q p) (conns s) of
                None \<Rightarrow> None
              | Some (Inl e, conns') \<Rightarrow>
                  Some (s\<lparr>counters := (counters s)(p := GSendErr e), conns := conns'\<rparr>)
              | Some (Inr c, conns') \<Rightarrow>
                  Some (s\<lparr>counters := (counters s)(p := GSendCount c), conns := conns'\<rparr>))
           else None)
      | MainAcquire \<Rightarrow>
          (case main s of
             FetchAcquire p l \<Rightarrow>
               (case dbconn (conns s) of
                  None \<Rightarrow> None
                | Some conns' \<Rightarrow>
                    (case offsets_from 0 (count_expected p l) (PerPage q) of
                       None \<Rightarrow> None
                     | Some offs \<Rightarrow>
                         Some (s\<lparr>main := drain p (iters (count_expected p l) (PerPage q)) l,
                                 pages := pages s @
                                   map (\<lambda>off. \<lparr>stage = p, page_offset = off, ppc = PWait\<rparr>) offs,
                                 conns := conns',
                                 throttle := (throttle s)(p := NumProcesses q)\<rparr>)))
           | _ \<Rightarrow> None)
      | PageRun i \<Rightarrow>
          (if i < length (pages s) then
             (let t = pages s ! i in
              if ppc t = PWait \<and> 0 < throttle s (stage t) then
                Some (s\<lparr>pages := (pages s)[i := t\<lparr>ppc :=
                          (case page_answer q (stage t) (page_offset t) of
                             Inl e \<Rightarrow> PSendErr e
                           | Inr rs \<Rightarrow> next_row rs)\<rparr>],
                        throttle := (throttle s)((stage t) := throttle s (stage t) - 1)\<rparr>)
              else None)
           else None))"

fun exec :: "query \<Rightarrow> event list \<Rightarrow> state \<Rightarrow> state option" where
  "exec q [] s = Some s"
| "exec q (ev # evs) s = (case step q ev s of None \<Rightarrow> None | Some s' \<Rightarrow> exec q evs s')"

text \<open>
  The state in which \<open>IntersectsFeature\<close> reaches its first select loop: \<open>geometry\<close> tells
  whether the feature has a \<open>geometry\<close> member (without one the function returns before
  any goroutine is started), \<open>free\<close> is the number of tokens in \<open>client.conns\<close>.
\<close>

definition IntersectsFeature :: "bool \<Rightarrow> nat \<Rightarrow> state" where
  "IntersectsFeature geometry free =
     (if geometry then
        \<lparr>main = CountLoop 2 0 0 0, counters = (\<lambda>p. GStart), pages = [],
         conns = free, throttle = (\<lambda>p. 0)\<rparr>
      else
        \<lparr>main = Returned None (Some MissingGeometry), counters = (\<lambda>p. GNotStarted), pages = [],
         conns = free, throttle = (\<lambda>p. 0)\<rparr>)"

definition returned :: "state \<Rightarrow> bool" where
  "returned s = (case main s of Returned r e \<Rightarrow> True | _ \<Rightarrow> False)"

section \<open>Indexing one feature\<close>

text \<open>
  A float64 is identified with the text \<open>json.Marshal\<close> prints for it; the model never
  computes with coordinates, it only passes them on to the store.
\<close>

type_synonym float64 = string

text \<open>
  What \<open>IndexFeature\<close> reads from the decoded feature, one field per accessor call:
  \<^item> \<open>feat_id\<close>: \<open>feature.Id()\<close>;
  \<^item> \<open>feat_geom_type\<close>: \<open>body.Path("geometry.type").Data().(string)\<close>, empty when the
    member is absent or not a string;
  \<^item> \<open>feat_geometry\<close>: \<open>body.Path("geometry").String()\<close>, the JSON text of the geometry;
  \<^item> \<open>feat_polygons\<close>: \<open>feature.GeomToPolygons()\<close>, each polygon with the points of its
    outer ring and of its interior rings as pairs of \<open>Lng()\<close> and \<open>Lat()\<close>;
  \<^item> \<open>lbl_latitude\<close> to \<open>geom_longitude\<close>: the four properties, present when they are
    float64;
  \<^item> \<open>feat_bbox\<close>: the children of \<open>bbox\<close>, each present when it is a float64;
  \<^item> \<open>feat_placetype\<close>, \<open>wof_repo\<close>, \<open>wof_parent_id\<close>, \<open>feat_deprecated\<close>,
    \<open>feat_superseded\<close>, \<open>wof_name\<close>, \<open>wof_country\<close>, \<open>wof_hierarchy\<close>: the remaining
    accessors, an optional value where the accessor has an \<open>ok\<close> result;
  \<^item> \<open>feat_geom_hash\<close>: \<open>utils.HashGeomFromFeature\<close> of the dumped feature.
\<close>

record wof_polygon =
  OuterRing :: "(float64 \<times> float64) list"
  InteriorRings :: "(float64 \<times> float64) list list"

record feature =
  feat_id :: int
  feat_geom_type :: string
  feat_geometry :: string
  feat_polygons :: "wof_polygon list"
  lbl_latitude :: "float64 option"
  lbl_longitude :: "float64 option"
  geom_latitude :: "float64 option"
  geom_longitude :: "float64 option"
  feat_bbox :: "float64 option list"
  feat_placetype :: string
  wof_repo :: "string option"
  wof_parent_id :: "int option"
  feat_deprecated :: bool
  feat_superseded :: bool
  wof_name :: string
  wof_country :: "string option"
  wof_hierarchy :: "(string \<rightharpoonup> int) list"
  feat_geom_hash :: "error + string"

text \<open>
  The \<open>Meta\<close> struct. The \<open>meta\<close> column holds its JSON text, which is a function of the
  struct (\<open>json.Marshal\<close> of strings and maps of ints does not fail); the model stores the
  struct.
\<close>

record Meta =
  Name :: string
  Country :: string
  Repo :: string
  Hierarchy :: "(string \<rightharpoonup> int) list"

record client =
  Geometry :: string
  Debug :: bool
  Verbose :: bool

text \<open>
  A row of the table \<open>whosonfirst\<close> without its key \<open>id\<close>; \<open>geom\<close> and \<open>centroid\<close> are
  \<open>None\<close> when NULL, otherwise the GeoJSON text given to \<open>ST_GeomFromGeoJSON\<close>.
\<close>

record wof_row =
  parent_id :: int
  placetype_id :: int
  is_superseded :: int
  is_deprecated :: int
  meta :: Meta
  geom_hash :: string
  lastmod :: string
  geom :: "string option"
  centroid :: "string option"

text \<open>
  The four outcomes of the \<open>if\<close> chain that builds the statement, each with the GeoJSON
  texts spliced into it, and the arguments \<open>db.Exec\<close> passes, which are the same for the
  \<open>VALUES\<close> list and for the \<open>DO UPDATE SET\<close> list.
\<close>

datatype statement =
    UpsertGeomCentroid string string  \<comment> \<open>\<open>str_geom != "" && str_centroid != ""\<close>\<close>
  | UpsertGeomOnly string             \<comment> \<open>\<open>str_geom != ""\<close>\<close>
  | UpsertCentroidOnly string         \<comment> \<open>\<open>str_centroid != ""\<close>\<close>
  | NoStatement                       \<comment> \<open>the empty \<open>else\<close>: \<open>sql\<close> stays empty\<close>

record exec_args =
  arg_wofid :: int
  arg_parent :: int
  arg_placetype :: int
  arg_superseded :: int
  arg_deprecated :: int
  arg_meta :: Meta
  arg_geom_hash :: string
  arg_lastmod :: string

datatype log_entry =
    SkippingEarth                      \<comment> \<open>"skipping Earth because it confused PostGIS"\<close>
  | GeomTypeIs string                  \<comment> \<open>"GEOM TYPE IS"\<close>
  | FailedParent int string            \<comment> \<open>"FAILED to determine parent ID for <id>#<repo>"\<close>
  | FailedCountry int                  \<comment> \<open>"FAILED to determine country for <id>#meta"\<close>
  | FailedHash error                   \<comment> \<open>"FAILED to hash geom because, ..."\<close>
  | InsertLine exec_args string string \<comment> \<open>the verbose "INSERT INTO whosonfirst ..." line\<close>
  | ExecFailed error statement         \<comment> \<open>the error and the statement, logged before \<open>os.Exit(1)\<close>\<close>
  | FailedToIndex string error         \<comment> \<open>"failed to index <path>, because ..."\<close>
  | Tally int int int                  \<comment> \<open>"count <count> ok <ok> error <errs>"\<close>

text \<open>
  The collaborators outside this package: the placetype table, the feature decoder reading
  a file, \<open>filepath.Join\<close>, and the store's own verdict on a statement it is given (a lost connection, a
  GeoJSON text that \<open>ST_GeomFromGeoJSON\<close> rejects), \<open>None\<close> when it has no objection.
\<close>

record collaborators =
  GetPlacetypeByName :: "string \<Rightarrow> error + int"
  UnmarshalFile :: "string \<Rightarrow> error + feature"
  filepath_Join :: "string \<Rightarrow> string \<Rightarrow> string"
  store_error :: "statement \<Rightarrow> exec_args \<Rightarrow> error option"

text \<open>
  What the process can see and change: the table, the free permits in \<open>client.conns\<close> and
  the log.
\<close>

record world =
  whosonfirst :: "int \<rightharpoonup> wof_row"
  permits :: nat
  logged :: "log_entry list"

text \<open>
  How a call ends: it returns its error result (\<open>None\<close> is nil), the process ends in
  \<open>os.Exit(1)\<close>, the goroutine panics, or the call blocks for ever in \<open>dbconn\<close>.
\<close>

datatype outcome = Returns "error option" | Exits | Panics | Blocks

subsection \<open>JSON texts\<close>

fun commas :: "string list \<Rightarrow> string" where
  "commas [] = []"
| "commas [x] = x"
| "commas (x # y # ys) = x @ '','' @ commas (y # ys)"

definition json_array :: "string list \<Rightarrow> string" where
  "json_array xs = ''['' @ commas xs @ '']''"

text \<open>
  \<open>Coords{lng, lat}\<close>, a \<open>LinearRing\<close> and a \<open>Polygon\<close> as \<open>json.Marshal\<close> prints them,
  and the three geometry structs. \<open>json.Marshal\<close> does not fail on them: the coordinates
  come from parsed JSON, which has neither NaN nor infinity.
\<close>

definition marshal_coords :: "float64 \<times> float64 \<Rightarrow> string" where
  "marshal_coords c = json_array [fst c, snd c]"

definition marshal_ring :: "(float64 \<times> float64) list \<Rightarrow> string" where
  "marshal_ring r = json_array (map marshal_coords r)"

definition marshal_polygon :: "(float64 \<times> float64) list list \<Rightarrow> string" where
  "marshal_polygon p = json_array (map marshal_ring p)"

definition marshal_GeometryMultiPoly :: "(float64 \<times> float64) list list list \<Rightarrow> string" where
  \<open>marshal_GeometryMultiPoly polys =
     ''{"type":"MultiPolygon","coordinates":'' @ json_array (map marshal_polygon polys) @ ''}''\<close>

definition marshal_GeometryPoly :: "(float64 \<times> float64) list list \<Rightarrow> string" where
  \<open>marshal_GeometryPoly poly =
     ''{"type":"Polygon","coordinates":'' @ marshal_polygon poly @ ''}''\<close>

definition marshal_Geometry :: "float64 \<times> float64 \<Rightarrow> string" where
  \<open>marshal_Geometry coords =
     ''{"type":"Point","coordinates":'' @ marshal_coords coords @ ''}''\<close>

subsection \<open>The steps of IndexFeature\<close>

text \<open>
  The \<open>Polygon\<close> branch: every polygon of \<open>GeomToPolygons\<close> becomes the list of its outer
  ring followed by its interior rings.
\<close>

definition polygon_rings :: "wof_polygon \<Rightarrow> (float64 \<times> float64) list list" where
  "polygon_rings p = OuterRing p # InteriorRings p"

text \<open>
  The \<open>bbox\<close> branch reads \<open>children[0]\<close> to \<open>children[3]\<close> and asserts each to be a
  float64; a missing child or another type panics (\<open>None\<close>).
\<close>

fun bbox_corners :: "float64 option list \<Rightarrow> (float64 \<times> float64 \<times> float64 \<times> float64) option" where
  "bbox_corners (Some swlon # Some swlat # Some nelon # Some nelat # rest) =
     Some (swlon, swlat, nelon, nelat)"
| "bbox_corners children = None"

text \<open>
  The dispatch on \<open>client.Geometry\<close> (the first \<open>if\<close> chain): either the call ends there,
  or \<open>str_geom\<close> and \<open>str_centroid\<close> are set; the second component is what was logged.
\<close>

definition geometry_step :: "client \<Rightarrow> feature \<Rightarrow> (outcome + string \<times> string) \<times> log_entry list" where
  "geometry_step cl f =
     (if Geometry cl = [] then
        (if feat_geom_type f = ''MultiPolygon'' then (Inr (feat_geometry f, []), [])
         else if feat_geom_type f = ''Polygon'' then
           (Inr (marshal_GeometryMultiPoly (map polygon_rings (feat_polygons f)), []), [])
         else if feat_geom_type f = ''Point'' then (Inr ([], feat_geometry f), [])
         else (Inl (Returns (Some DoSomethingHere)), [GeomTypeIs (feat_geom_type f)]))
      else if Geometry cl = ''bbox'' then
        (case bbox_corners (feat_bbox f) of
           None \<Rightarrow> (Inl Panics, [])
         | Some (swlon, swlat, nelon, nelat) \<Rightarrow>
             (Inr (marshal_GeometryPoly
                     [[(swlon, swlat), (swlon, nelat), (nelon, nelat), (nelon, swlat), (swlon, swlat)]],
                   []), []))
      else if Geometry cl = ''centroid'' then (Inr ([], []), [])
      else (Inl (Returns (Some UnknownGeometryFilter)), []))"

text \<open>
  The block \<open>if str_centroid == ""\<close>: the label coordinates, or when one of them is
  missing the \<open>geom:\<close> coordinates, marshalled as a \<open>Point\<close>.
\<close>

definition centroid_step :: "feature \<Rightarrow> string \<Rightarrow> error + string" where
  "centroid_step f str_centroid =
     (if str_centroid = [] then
        (case (case (lbl_latitude f, lbl_longitude f) of
                 (Some lat, Some lon) \<Rightarrow> (Some lat, Some lon)
               | _ \<Rightarrow> (geom_latitude f, geom_longitude f)) of
           (Some lat, Some lon) \<Rightarrow> Inr (marshal_Geometry (lon, lat))
         | _ \<Rightarrow> Inl CantFindCentroid)
      else Inr str_centroid)"

text \<open>The \<open>if\<close> chain that picks the statement.\<close>

definition choose_statement :: "string \<Rightarrow> string \<Rightarrow> statement" where
  "choose_statement str_geom str_centroid =
     (if str_geom \<noteq> [] \<and> str_centroid \<noteq> [] then UpsertGeomCentroid str_geom str_centroid
      else if str_geom \<noteq> [] then UpsertGeomOnly str_geom
      else if str_centroid \<noteq> [] then UpsertCentroidOnly str_centroid
      else NoStatement)"

text \<open>
  \<open>db.Exec\<close> on the table, keyed by \<open>id\<close> (\<open>ON CONFLICT(id)\<close>).
  \<^item> The statement with both columns inserts the row or, on conflict, sets every column.
  \<^item> The centroid statement inserts a row whose \<open>geom\<close> is NULL or, on conflict, sets every
    column but \<open>geom\<close>.
  \<^item> The geometry statement names ten target columns, among them \<open>xgeom\<close>, for nine
    values: the store rejects it.
  \<^item> The empty statement is given fifteen arguments for no placeholder: the store rejects it.
\<close>

definition new_row :: "exec_args \<Rightarrow> string option \<Rightarrow> string option \<Rightarrow> wof_row" where
  "new_row a g c =
     \<lparr>parent_id = arg_parent a, placetype_id = arg_placetype a,
      is_superseded = arg_superseded a, is_deprecated = arg_deprecated a,
      meta = arg_meta a, geom_hash = arg_geom_hash a, lastmod = arg_lastmod a,
      geom = g, centroid = c\<rparr>"

definition db_Exec :: "collaborators \<Rightarrow> statement \<Rightarrow> exec_args \<Rightarrow> (int \<rightharpoonup> wof_row) \<Rightarrow> error + (int \<rightharpoonup> wof_row)" where
  "db_Exec c stmt a tbl =
     (case store_error c stmt a of
        Some e \<Rightarrow> Inl e
      | None \<Rightarrow>
          (case stmt of
             UpsertGeomCentroid g ct \<Rightarrow> Inr (tbl(arg_wofid a \<mapsto> new_row a (Some g) (Some ct)))
           | UpsertGeomOnly g \<Rightarrow> Inl (External ''INSERT has more target columns than expressions'')
           | UpsertCentroidOnly ct \<Rightarrow>
               Inr (tbl(arg_wofid a \<mapsto>
                      new_row a (case tbl (arg_wofid a) of None \<Rightarrow> None | Some r \<Rightarrow> geom r) (Some ct)))
           | NoStatement \<Rightarrow> Inl (External ''got 15 parameters but the statement requires 0'')))"

text \<open>
  Everything \<open>IndexFeature\<close> does between the test of the id and the test of
  \<open>client.Debug\<close>: either the call ends, or the statement and its arguments are ready; the
  second component is what was logged on the way. \<open>now\<close> is \<open>time.Now()\<close> in RFC3339.
\<close>

definition prepare :: "collaborators \<Rightarrow> client \<Rightarrow> feature \<Rightarrow> string \<Rightarrow> (outcome + statement \<times> exec_args) \<times> log_entry list" where
  "prepare c cl f now =
     (case geometry_step cl f of
        (Inl out, l1) \<Rightarrow> (Inl out, l1)
      | (Inr (str_geom, str_centroid0), l1) \<Rightarrow>
     (case centroid_step f str_centroid0 of
        Inl e \<Rightarrow> (Inl (Returns (Some e)), l1)
      | Inr str_centroid \<Rightarrow>
     (case GetPlacetypeByName c (feat_placetype f) of
        Inl e \<Rightarrow> (Inl (Returns (Some e)), l1)
      | Inr pt_id \<Rightarrow>
     (case wof_repo f of
        None \<Rightarrow> (Inl (Returns (Some (CantFindRepo (feat_id f)))), l1)
      | Some repo \<Rightarrow>
     (if repo = [] then (Inl (Returns (Some (MissingRepo (feat_id f)))), l1)
      else
     (let l2 = l1 @ (case wof_parent_id f of None \<Rightarrow> [FailedParent (feat_id f) repo] | Some p \<Rightarrow> []);
          parent = (case wof_parent_id f of None \<Rightarrow> - 1 | Some p \<Rightarrow> p);
          is_deprecated = (if feat_deprecated f then 1 else 0);
          is_superseded = (if feat_superseded f then 1 else 0);
          l3 = l2 @ (case wof_country f of None \<Rightarrow> [FailedCountry (feat_id f)] | Some k \<Rightarrow> []);
          country = (case wof_country f of None \<Rightarrow> ''XX'' | Some k \<Rightarrow> k);
          str_meta = \<lparr>Name = wof_name f, Country = country, Repo = repo,
                      Hierarchy = wof_hierarchy f\<rparr>
      in
     (case feat_geom_hash f of
        Inl e \<Rightarrow> (Inl (Returns (Some e)), l3 @ [FailedHash e])
      | Inr hash \<Rightarrow>
     (let a = \<lparr>arg_wofid = feat_id f, arg_parent = parent, arg_placetype = pt_id,
               arg_superseded = is_superseded, arg_deprecated = is_deprecated,
               arg_meta = str_meta, arg_geom_hash = hash, arg_lastmod = now\<rparr>;
          l4 = l3 @ (if Verbose cl
                     then [InsertLine a (if Geometry cl = [] then ''...'' else str_geom) str_centroid]
                     else [])
      in (Inr (choose_statement str_geom str_centroid, a), l4)))))))))"

text \<open>
  \<open>IndexFeature\<close>. Id 0 is skipped. Unless \<open>client.Debug\<close> is set, the call takes a permit,
  runs the statement and gives the permit back in a deferred function when it returns; a
  failing statement is logged and ends the process in \<open>os.Exit(1)\<close>, which runs no deferred
  function.
\<close>

definition say :: "log_entry list \<Rightarrow> world \<Rightarrow> world" where
  "say l w = w\<lparr>logged := logged w @ l\<rparr>"

definition IndexFeature :: "collaborators \<Rightarrow> client \<Rightarrow> feature \<Rightarrow> string \<Rightarrow> world \<Rightarrow> outcome \<times> world" where
  "IndexFeature c cl f now w =
     (if feat_id f = 0 then (Returns None, say [SkippingEarth] w)
      else
        (case prepare c cl f now of
           (Inl out, l) \<Rightarrow> (out, say l w)
         | (Inr (stmt, a), l) \<Rightarrow>
             (if \<not> Debug cl then
                (case dbconn (permits w) of
                   None \<Rightarrow> (Blocks, say l w)
                 | Some left \<Rightarrow>
                     (case db_Exec c stmt a (whosonfirst w) of
                        Inl e \<Rightarrow> (Exits, say (l @ [ExecFailed e stmt]) (w\<lparr>permits := left\<rparr>))
                      | Inr tbl \<Rightarrow>
                          (Returns None, say l (w\<lparr>whosonfirst := tbl, permits := left + 1\<rparr>))))
              else (Returns None, say l w))))"


section \<open>The bulk index pipeline\<close>






text \<open>
  The callback of \<open>IndexDirectory\<close> on one file: \<open>matches\<close> tells whether the file name
  matches \<open>(\d+)\.geojson$\<close>; the counters are \<open>count\<close>, \<open>ok\<close> and \<open>errs\<close>. The error the
  callback returns goes to the crawler, which is not part of this package.
\<close>

record counters3 =
  count :: int
  ok :: int
  errs :: int


section \<open>Phases of a run of the intersects query\<close>

text \<open>
  The predicates below describe the states a run of \<open>IntersectsFeature\<close> passes through;
  they are the invariants of the proofs further down. \<open>planned q p\<close> is the send that
  \<open>get_count\<close> for partition \<open>p\<close> makes once \<open>CountIntersects\<close> has returned.
\<close>

definition planned :: "query \<Rightarrow> partition \<Rightarrow> count_pc" where
  "planned q p = (case count_answer q p of Inl e \<Rightarrow> GSendErr e | Inr c \<Rightarrow> GSendCount c)"

definition counter_ok :: "query \<Rightarrow> partition \<Rightarrow> count_pc \<Rightarrow> bool" where
  "counter_ok q p pc = (pc = GStart \<or> pc = planned q p \<or> pc = GSendDone \<or> pc = GFinished)"

definition pending :: "count_pc \<Rightarrow> int" where
  "pending pc = (if pc = GFinished then 0 else 1)"

definition started :: "count_pc \<Rightarrow> nat" where
  "started pc = (if pc = GStart then 0 else 1)"

definition past_send :: "count_pc \<Rightarrow> bool" where
  "past_send pc = (pc = GSendDone \<or> pc = GFinished)"

text \<open>
  Main is in its first select loop: \<open>n\<close> counts the \<open>get_count\<close> goroutines whose
  deferred \<open>done_ch <- true\<close> has not been received, a goroutine that is past its send has
  delivered a count (an error would have ended the loop), no page task exists, and every
  goroutine that has left \<open>dbconn\<close> holds one permit.
\<close>

definition count_phase :: "query \<Rightarrow> nat \<Rightarrow> state \<Rightarrow> bool" where
  "count_phase q free s =
     (\<exists>n cg cc ct. main s = CountLoop n cg cc ct \<and>
        n = pending (counters s PGeom) + pending (counters s PCentroid) \<and> 0 < n \<and>
        (past_send (counters s PGeom) \<longrightarrow> count_answer q PGeom = Inr cg) \<and>
        (past_send (counters s PCentroid) \<longrightarrow> count_answer q PCentroid = Inr cc) \<and>
        counter_ok q PGeom (counters s PGeom) \<and> counter_ok q PCentroid (counters s PCentroid) \<and>
        pages s = [] \<and>
        conns s + started (counters s PGeom) + started (counters s PCentroid) = free)"

text \<open>The count loop was left with an error of one of the count statements.\<close>

definition failed :: "query \<Rightarrow> state \<Rightarrow> bool" where
  "failed q s = (pages s = [] \<and> (\<exists>p e. main s = Returned None (Some e) \<and> count_answer q p = Inl e))"

text \<open>Both counts came back not positive and the function returned the empty list.\<close>

definition empty_done :: "query \<Rightarrow> state \<Rightarrow> bool" where
  "empty_done q s =
     (pages s = [] \<and> main s = Returned (Some []) None \<and>
      (\<exists>cg cc. count_answer q PGeom = Inr cg \<and> count_answer q PCentroid = Inr cc \<and> cg \<le> 0 \<and> cc \<le> 0))"

text \<open>Both counts came back, one of them positive, and main is inside \<open>FetchIntersectsAsync\<close>.\<close>

definition in_fetch :: "query \<Rightarrow> state \<Rightarrow> bool" where
  "in_fetch q s =
     ((\<exists>p l. main s = FetchAcquire p l \<or> (\<exists>i. main s = FetchDrain p i l) \<or> main s = FetchDone p l) \<and>
      (\<exists>cg cc. count_answer q PGeom = Inr cg \<and> count_answer q PCentroid = Inr cc \<and> (0 < cg \<or> 0 < cc)))"

definition phases :: "query \<Rightarrow> nat \<Rightarrow> state \<Rightarrow> bool" where
  "phases q free s = (count_phase q free s \<or> failed q s \<or> empty_done q s \<or> in_fetch q s)"

text \<open>The number of steps a \<open>get_count\<close> goroutine still has before it ends.\<close>

definition rank :: "count_pc \<Rightarrow> nat" where
  "rank pc = (case pc of GNotStarted \<Rightarrow> 0 | GStart \<Rightarrow> 3 | GSendErr e \<Rightarrow> 2 | GSendCount c \<Rightarrow> 2
              | GSendDone \<Rightarrow> 1 | GFinished \<Rightarrow> 0)"

definition steps_left :: "state \<Rightarrow> nat" where
  "steps_left s = rank (counters s PGeom) + rank (counters s PCentroid)"

definition no_fetch :: "query \<Rightarrow> bool" where
  "no_fetch q = (\<not> (\<exists>cg cc. count_answer q PGeom = Inr cg \<and> count_answer q PCentroid = Inr cc \<and>
                        (0 < cg \<or> 0 < cc)))"

definition count_stage :: "query \<Rightarrow> nat \<Rightarrow> state \<Rightarrow> bool" where
  "count_stage q free s = (count_phase q free s \<or> failed q s \<or> empty_done q s)"

section \<open>Concrete queries and runs\<close>

text \<open>
  A query with one matching polygon row (\<open>q_one\<close>), one whose polygon count fails
  (\<open>q_err\<close>) and one with no match (\<open>q_zero\<close>), each with a run of the goroutines and
  the state that run ends in.
\<close>

definition row1 :: PgisRow where
  "row1 = \<lparr>Id = 85922583, ParentId = 85688637, PlacetypeId = 102312319, IsSuperseded = 0,
           IsDeprecated = 0, Meta = ''{}'', Geom = ''{}'', Centroid = ''{}''\<rparr>"

definition q_one :: query where
  "q_one = \<lparr>PerPage = 1000, NumProcesses = 4,
            count_answer = (\<lambda>p. case p of PGeom \<Rightarrow> Inr 1 | PCentroid \<Rightarrow> Inr 0),
            page_answer = (\<lambda>p off. Inr [Inr row1])\<rparr>"

definition q_err :: query where
  "q_err = \<lparr>PerPage = 1000, NumProcesses = 4,
            count_answer = (\<lambda>p. case p of PGeom \<Rightarrow> Inl (External ''bad connection'') | PCentroid \<Rightarrow> Inr 3),
            page_answer = (\<lambda>p off. Inr [])\<rparr>"

definition q_zero :: query where
  "q_zero = \<lparr>PerPage = 1000, NumProcesses = 4,
            count_answer = (\<lambda>p. Inr 0),
            page_answer = (\<lambda>p off. Inr [])\<rparr>"

definition run_one :: "event list" where
  "run_one = [CountRun PGeom, Sync (Counter PGeom) Main, Sync (Counter PGeom) Main,
              CountRun PCentroid, Sync (Counter PCentroid) Main, Sync (Counter PCentroid) Main,
              MainAcquire, PageRun 0]"

definition stuck_one :: state where
  "stuck_one =
     \<lparr>main = FetchDrain PGeom 1 \<lparr>count_geom = 1, count_centroid = 0, fetching = 0, rows = []\<rparr>,
      counters = (\<lambda>p. GFinished),
      pages = [\<lparr>stage = PGeom, page_offset = 0, ppc = PSendRow row1 []\<rparr>],
      conns = 7,
      throttle = (\<lambda>p. case p of PGeom \<Rightarrow> 3 | PCentroid \<Rightarrow> 0)\<rparr>"

definition run_err :: "event list" where
  "run_err = [CountRun PCentroid, CountRun PGeom, Sync (Counter PCentroid) Main,
              Sync (Counter PGeom) Main]"

definition end_err :: state where
  "end_err =
     \<lparr>main = Returned None (Some (External ''bad connection'')),
      counters = (\<lambda>p. GSendDone), pages = [], conns = 0, throttle = (\<lambda>p. 0)\<rparr>"

definition run_zero :: "event list" where
  "run_zero = [CountRun PGeom, CountRun PCentroid, Sync (Counter PGeom) Main,
               Sync (Counter PCentroid) Main, Sync (Counter PCentroid) Main,
               Sync (Counter PGeom) Main]"

definition end_zero :: state where
  "end_zero =
     \<lparr>main = Returned (Some []) None,
      counters = (\<lambda>p. GFinished), pages = [], conns = 0, throttle = (\<lambda>p. 0)\<rparr>"

section \<open>Indexing: auxiliary definitions\<close>

text \<open>
  The arguments \<open>prepare\<close> puts together for \<open>db.Exec\<close>, as a function of what it read
  from the feature and the collaborators.
\<close>

definition assemble :: "feature \<Rightarrow> int \<Rightarrow> string \<Rightarrow> string \<Rightarrow> string \<Rightarrow> exec_args" where
  "assemble f pt_id repo hash now =
     \<lparr>arg_wofid = feat_id f,
      arg_parent = (case wof_parent_id f of None \<Rightarrow> - 1 | Some p \<Rightarrow> p),
      arg_placetype = pt_id,
      arg_superseded = (if feat_superseded f then 1 else 0),
      arg_deprecated = (if feat_deprecated f then 1 else 0),
      arg_meta = \<lparr>Name = wof_name f,
                  Country = (case wof_country f of None \<Rightarrow> ''XX'' | Some k \<Rightarrow> k),
                  Repo = repo, Hierarchy = wof_hierarchy f\<rparr>,
      arg_geom_hash = hash, arg_lastmod = now\<rparr>"

text \<open>
  Two worlds with the same table and the same free permits (their logs may differ), and
  two results with the same outcome in such worlds.
\<close>

definition same_store :: "world \<Rightarrow> world \<Rightarrow> bool" where
  "same_store w w' = (whosonfirst w = whosonfirst w' \<and> permits w = permits w')"

definition same_result :: "outcome \<times> world \<Rightarrow> outcome \<times> world \<Rightarrow> bool" where
  "same_result r r' = (fst r = fst r' \<and> same_store (snd r) (snd r'))"

section \<open>A concrete feature, collaborators and worlds\<close>

text \<open>
  A point feature with id 101, collaborators that know one placetype and one readable
  file, a client with the default geometry mode, an empty table with one free permit, and
  the world after the feature has been indexed at time \<open>now\<close>.
\<close>

definition point_feature :: feature where
  \<open>point_feature =
     \<lparr>feat_id = 101, feat_geom_type = ''Point'',
      feat_geometry = ''{"type":"Point","coordinates":[1,2]}'',
      feat_polygons = [], lbl_latitude = None, lbl_longitude = None,
      geom_latitude = Some ''2'', geom_longitude = Some ''1'', feat_bbox = [],
      feat_placetype = ''venue'', wof_repo = Some ''whosonfirst-data'',
      wof_parent_id = Some 85633793, feat_deprecated = False, feat_superseded = False,
      wof_name = ''A'', wof_country = Some ''US'', wof_hierarchy = [],
      feat_geom_hash = Inr ''d41d''\<rparr>\<close>

definition c_demo :: collaborators where
  "c_demo =
     \<lparr>GetPlacetypeByName = (\<lambda>n. if n = ''venue'' then Inr 102312325 else Inl (External ''Invalid placetype'')),
      UnmarshalFile = (\<lambda>p. if p = ''101.geojson'' then Inr point_feature
                            else Inl (External ''unexpected end of JSON input'')),
      filepath_Join = (\<lambda>a b. a @ ''/'' @ b),
      store_error = (\<lambda>stmt a. None)\<rparr>"

definition cl_demo :: client where
  "cl_demo = \<lparr>Geometry = [], Debug = False, Verbose = False\<rparr>"

definition w_demo :: world where
  "w_demo = \<lparr>whosonfirst = Map.empty, permits = 1, logged = []\<rparr>"

definition args_demo :: "string \<Rightarrow> exec_args" where
  "args_demo now =
     \<lparr>arg_wofid = 101, arg_parent = 85633793, arg_placetype = 102312325,
      arg_superseded = 0, arg_deprecated = 0,
      arg_meta = \<lparr>Name = ''A'', Country = ''US'', Repo = ''whosonfirst-data'', Hierarchy = []\<rparr>,
      arg_geom_hash = ''d41d'', arg_lastmod = now\<rparr>"

definition w_indexed :: "string \<Rightarrow> world" where
  "w_indexed now =
     \<lparr>whosonfirst = [101 \<mapsto> new_row (args_demo now) None (Some (feat_geometry point_feature))],
      permits = 1, logged = []\<rparr>"



section \<open>The intersects query: invariants\<close>

lemma partition_cases: "(p = PGeom \<Longrightarrow> P) \<Longrightarrow> (p = PCentroid \<Longrightarrow> P) \<Longrightarrow> P"
  by (cases p) auto

text \<open>Once main has returned or is inside \<open>FetchIntersectsAsync\<close>, no step takes it back.\<close>

lemma step_failed: "step q ev s = Some s' \<Longrightarrow> failed q s \<Longrightarrow> failed q s'"
  by (cases ev)
     (auto simp: step_def failed_def sending_def receive_def main_receive_def sent_def
         CountIntersects_def Let_def
       split: if_splits option.splits gid.splits sum.splits prod.splits)

lemma step_empty_done: "step q ev s = Some s' \<Longrightarrow> empty_done q s \<Longrightarrow> empty_done q s'"
  by (cases ev)
     (auto simp: step_def empty_done_def sending_def receive_def main_receive_def sent_def
         CountIntersects_def Let_def
       split: if_splits option.splits gid.splits sum.splits prod.splits)

lemma step_in_fetch: "step q ev s = Some s' \<Longrightarrow> in_fetch q s \<Longrightarrow> in_fetch q s'"
  by (cases ev)
     (auto simp: step_def in_fetch_def sending_def receive_def main_receive_def sent_def
         CountIntersects_def Let_def drain_def count_sending_def page_sending_def
       split: if_splits option.splits gid.splits sum.splits prod.splits count_pc.splits page_pc.splits)

text \<open>
  The shape of the two kinds of step that occur while main is in its first select loop.
  A meeting always has main as the receiver.
\<close>

lemma Sync_elim:
  assumes "step q (Sync g h) s = Some s'"
  obtains c m pc where "h = Main" "g \<noteq> Main" "sending s g = Some (c, m)"
    "main_receive c m (main s) = Some pc" "s' = sent g (s\<lparr>main := pc\<rparr>)"
  using assms
  by (cases h) (auto simp: step_def receive_def split: if_splits option.splits)

lemma CountRun_elim:
  assumes "step q (CountRun p) s = Some s'"
  obtains n where "counters s p = GStart" "conns s = Suc n"
    "s' = s\<lparr>counters := (counters s)(p := planned q p), conns := n\<rparr>"
  using assms
  by (cases "conns s")
     (auto simp: step_def CountIntersects_def dbconn_def planned_def split: if_splits sum.splits)

lemma CountRun_count_phase:
  assumes "step q (CountRun p) s = Some s'" "count_phase q free s"
  shows "count_phase q free s'"
proof -
  from assms(1) obtain n where *: "counters s p = GStart" "conns s = Suc n"
    "s' = s\<lparr>counters := (counters s)(p := planned q p), conns := n\<rparr>"
    by (rule CountRun_elim)
  have pl: "planned q p \<noteq> GStart" "planned q p \<noteq> GFinished" "planned q p \<noteq> GSendDone"
    by (auto simp: planned_def split: sum.splits)
  show ?thesis
    using assms(2) * pl
    by (cases p) (auto simp: count_phase_def counter_ok_def pending_def started_def past_send_def)
qed

text \<open>
  A meeting in the count loop: an error ends the loop, a count is stored, and the second
  \<open>done\<close> signal leads either into \<open>FetchIntersectsAsync\<close> or, with no positive count,
  to the return of the empty list.
\<close>

lemma Sync_count_phase:
  assumes st: "step q (Sync g h) s = Some s'" and inv: "count_phase q free s"
  shows "count_phase q free s' \<or> failed q s' \<or> empty_done q s' \<or> in_fetch q s'"
proof -
  from inv obtain n cg cc ct where m: "main s = CountLoop n cg cc ct"
    and n: "n = pending (counters s PGeom) + pending (counters s PCentroid)" "0 < n"
    and pg: "past_send (counters s PGeom) \<longrightarrow> count_answer q PGeom = Inr cg"
    and pc: "past_send (counters s PCentroid) \<longrightarrow> count_answer q PCentroid = Inr cc"
    and ok: "counter_ok q PGeom (counters s PGeom)" "counter_ok q PCentroid (counters s PCentroid)"
    and pgs: "pages s = []"
    and cn: "conns s + started (counters s PGeom) + started (counters s PCentroid) = free"
    by (auto simp: count_phase_def)
  from st obtain c m' pc' where h: "h = Main" and g: "g \<noteq> Main"
    and snd: "sending s g = Some (c, m')"
    and rcv: "main_receive c m' (main s) = Some pc'"
    and s': "s' = sent g (s\<lparr>main := pc'\<rparr>)"
    by (rule Sync_elim)
  from snd g pgs obtain p where gp: "g = Counter p"
    by (cases g) (auto simp: sending_def)
  have okp: "counter_ok q p (counters s p)"
    using ok by (cases p) auto
  from snd gp have cs: "count_sending p (counters s p) = Some (c, m')"
    by (simp add: sending_def)
  consider (err) e where "counters s p = GSendErr e" "count_answer q p = Inl e"
    | (cnt) k where "counters s p = GSendCount k" "count_answer q p = Inr k"
    | (fin) "counters s p = GSendDone"
    using okp cs
    by (auto simp: counter_ok_def planned_def count_sending_def split: sum.splits)
  then show ?thesis
  proof cases
    case err
    with cs rcv m have "pc' = Returned None (Some e)"
      by (auto simp: count_sending_def main_receive_def)
    with s' gp pgs err have "failed q s'"
      by (auto simp: failed_def sent_def)
    then show ?thesis by blast
  next
    case cnt
    with cs rcv m have "pc' = (case p of PGeom \<Rightarrow> CountLoop n k cc (ct + k)
                                       | PCentroid \<Rightarrow> CountLoop n cg k (ct + k))"
      by (cases p) (auto simp: count_sending_def main_receive_def)
    then have pc'': "p = PGeom \<Longrightarrow> pc' = CountLoop n k cc (ct + k)"
        "p = PCentroid \<Longrightarrow> pc' = CountLoop n cg k (ct + k)"
      by auto
    have f: "counters s' = (counters s)(p := GSendDone)" "pages s' = []" "conns s' = conns s"
        "main s' = pc'"
      using s' gp cnt pgs by (auto simp: sent_def)
    have pend: "pending (counters s' r) = pending (counters s r)" for r
      using cnt by (simp add: f pending_def)
    have sta: "started (counters s' r) = started (counters s r)" for r
      using cnt by (simp add: f started_def)
    have okr: "counter_ok q r (counters s' r)" for r
      using ok by (cases r; simp add: f counter_ok_def)
    have "count_phase q free s'"
    proof (cases p)
      case PGeom
      have "past_send (counters s' PCentroid) \<longrightarrow> count_answer q PCentroid = Inr cc"
        using pc PGeom by (simp add: f)
      moreover have "count_answer q PGeom = Inr k" using cnt PGeom by simp
      ultimately show ?thesis
        unfolding count_phase_def using pc''(1)[OF PGeom] n cn okr
        by (simp add: f(2,3,4) pend sta)
    next
      case PCentroid
      have "past_send (counters s' PGeom) \<longrightarrow> count_answer q PGeom = Inr cg"
        using pg PCentroid by (simp add: f)
      moreover have "count_answer q PCentroid = Inr k" using cnt PCentroid by simp
      ultimately show ?thesis
        unfolding count_phase_def using pc''(2)[OF PCentroid] n cn okr
        by (simp add: f(2,3,4) pend sta)
    qed
    then show ?thesis by blast
  next
    case fin
    with cs rcv m have pc': "pc' = count_loop (n - 1) cg cc ct"
      by (auto simp: count_sending_def main_receive_def)
    show ?thesis
    proof (cases "0 < n - 1")
      case True
      have f: "counters s' = (counters s)(p := GFinished)" "pages s' = []" "conns s' = conns s"
          "main s' = CountLoop (n - 1) cg cc ct"
        using s' gp fin pgs pc' True by (auto simp: sent_def count_loop_def)
      have sta: "started (counters s' r) = started (counters s r)" for r
        using fin by (simp add: f started_def)
      have okr: "counter_ok q r (counters s' r)" for r
        using ok by (cases r; simp add: f counter_ok_def)
      have past: "past_send (counters s' r) = past_send (counters s r)" for r
        using fin by (simp add: f past_send_def)
      have pend: "pending (counters s' PGeom) + pending (counters s' PCentroid) = n - 1"
        using n(1) fin by (cases p) (simp_all add: f pending_def)
      have "count_phase q free s'"
        unfolding count_phase_def using True pg pc cn okr pend
        by (simp add: f(2,3,4) sta past)
      then show ?thesis by blast
    next
      case False
      with n fin have both: "past_send (counters s PGeom)" "past_send (counters s PCentroid)"
        by (cases p; auto simp: pending_def past_send_def split: if_splits)+
      with pg pc have ans: "count_answer q PGeom = Inr cg" "count_answer q PCentroid = Inr cc"
        by auto
      from False pc' have pc'': "pc' = enter_geom \<lparr>count_geom = cg, count_centroid = cc, fetching = 0, rows = []\<rparr>"
        by (simp add: count_loop_def)
      have ms': "main s' = pc'" "pages s' = []"
        using s' gp fin pgs by (auto simp: sent_def)
      show ?thesis
      proof (cases "0 < cg \<or> 0 < cc")
        case True
        with pc'' ms' ans have "in_fetch q s'"
          by (auto simp: in_fetch_def enter_geom_def enter_centroid_def)
        then show ?thesis by blast
      next
        case False
        with pc'' ms' ans have "empty_done q s'"
          by (auto simp: empty_done_def enter_geom_def enter_centroid_def final_loop_def)
        then show ?thesis by blast
      qed
    qed
  qed
qed

lemma step_count_phase:
  assumes "step q ev s = Some s'" "count_phase q free s"
  shows "count_phase q free s' \<or> failed q s' \<or> empty_done q s' \<or> in_fetch q s'"
proof (cases ev)
  case (Sync g h)
  with assms show ?thesis using Sync_count_phase by blast
next
  case (CountRun p)
  with assms show ?thesis using CountRun_count_phase by blast
next
  case MainAcquire
  with assms show ?thesis by (auto simp: step_def count_phase_def)
next
  case (PageRun i)
  with assms show ?thesis by (auto simp: step_def count_phase_def)
qed

lemma step_phases: "step q ev s = Some s' \<Longrightarrow> phases q free s \<Longrightarrow> phases q free s'"
  unfolding phases_def
  using step_count_phase step_failed step_empty_done step_in_fetch by blast

lemma exec_phases: "exec q evs s = Some s' \<Longrightarrow> phases q free s \<Longrightarrow> phases q free s'"
  by (induction evs arbitrary: s) (auto split: option.splits dest: step_phases)

lemma start_count_phase: "count_phase q free (IntersectsFeature True free)"
  by (simp add: count_phase_def IntersectsFeature_def pending_def started_def past_send_def counter_ok_def)

lemma reachable_phases:
  "exec q evs (IntersectsFeature True free) = Some s \<Longrightarrow> phases q free s"
  using exec_phases start_count_phase unfolding phases_def by blast

text \<open>
  With a failing count statement or without a positive count, a run never leaves the
  count stage; each of its steps is one of the at most six steps of the two
  \<open>get_count\<close> goroutines.
\<close>

lemma no_fetch_phases: "no_fetch q \<Longrightarrow> phases q free s \<Longrightarrow> count_stage q free s"
  by (auto simp: no_fetch_def phases_def count_stage_def in_fetch_def)

lemma count_stage_phases: "count_stage q free s \<Longrightarrow> phases q free s"
  by (auto simp: phases_def count_stage_def)

lemma count_stage_pages: "count_stage q free s \<Longrightarrow> pages s = []"
  by (auto simp: count_stage_def count_phase_def failed_def empty_done_def)

lemma count_stage_main: "count_stage q free s \<Longrightarrow> main s \<noteq> FetchAcquire p l"
  by (auto simp: count_stage_def count_phase_def failed_def empty_done_def)

lemma rank_planned: "rank (planned q p) = 2"
  by (simp add: rank_def planned_def split: sum.splits)

lemma steps_left_upd:
  "rank (counters s p) = Suc k \<Longrightarrow> counters s' = (counters s)(p := pc) \<Longrightarrow> rank pc = k \<Longrightarrow>
   Suc (steps_left s') = steps_left s"
  by (cases p) (simp_all add: steps_left_def)

lemma step_steps_left:
  assumes "step q ev s = Some s'" "pages s = []" "\<And>p l. main s \<noteq> FetchAcquire p l"
  shows "Suc (steps_left s') = steps_left s"
proof (cases ev)
  case (Sync g h)
  with assms(1) obtain c m pc where h: "h = Main" "g \<noteq> Main" "sending s g = Some (c, m)"
      "s' = sent g (s\<lparr>main := pc\<rparr>)"
    by (auto elim: Sync_elim)
  from h(2,3) assms(2) obtain p where gp: "g = Counter p"
    by (cases g) (auto simp: sending_def)
  from h(3) gp have cs: "count_sending p (counters s p) = Some (c, m)"
    by (simp add: sending_def)
  then have "\<exists>k pc'. rank (counters s p) = Suc k \<and> counters s' = (counters s)(p := pc') \<and> rank pc' = k"
    using h(4) gp
    by (cases "counters s p") (auto simp: count_sending_def sent_def rank_def)
  then show ?thesis using steps_left_upd by blast
next
  case (CountRun p)
  with assms(1) obtain n where "counters s p = GStart"
      "s' = s\<lparr>counters := (counters s)(p := planned q p), conns := n\<rparr>"
    by (auto elim: CountRun_elim)
  then have "rank (counters s p) = Suc 2" "counters s' = (counters s)(p := planned q p)"
    by (simp_all add: rank_def)
  then show ?thesis using steps_left_upd rank_planned by blast
next
  case MainAcquire
  with assms show ?thesis by (auto simp: step_def split: main_pc.splits)
next
  case (PageRun i)
  with assms show ?thesis by (auto simp: step_def)
qed

lemma exec_steps_left:
  "no_fetch q \<Longrightarrow> count_stage q free s \<Longrightarrow> exec q evs s = Some s' \<Longrightarrow>
   length evs + steps_left s' = steps_left s"
proof (induction evs arbitrary: s)
  case Nil
  then show ?case by simp
next
  case (Cons ev evs)
  from Cons.prems(3) obtain s1 where s1: "step q ev s = Some s1" "exec q evs s1 = Some s'"
    by (auto split: option.splits)
  from s1(1) Cons.prems(1,2) have "count_stage q free s1"
    using step_phases count_stage_phases no_fetch_phases by blast
  with Cons.IH Cons.prems(1) s1(2) have "length evs + steps_left s' = steps_left s1"
    by blast
  moreover have "Suc (steps_left s1) = steps_left s"
    using step_steps_left [OF s1(1)] count_stage_pages [OF Cons.prems(2)]
      count_stage_main [OF Cons.prems(2)] by blast
  ultimately show ?case by simp
qed

lemma start_steps_left: "steps_left (IntersectsFeature True free) = 6"
  by (simp add: steps_left_def IntersectsFeature_def rank_def)

text \<open>
  With two permits free at the start, main cannot wait in the count loop for ever: one of
  the \<open>get_count\<close> goroutines can always move.
\<close>

lemma count_phase_progress:
  assumes inv: "count_phase q free s" and free: "2 \<le> free"
  shows "\<exists>ev s'. step q ev s = Some s'"
proof -
  from inv obtain n cg cc ct where m: "main s = CountLoop n cg cc ct"
    and n: "n = pending (counters s PGeom) + pending (counters s PCentroid)" "0 < n"
    and ok: "counter_ok q PGeom (counters s PGeom)" "counter_ok q PCentroid (counters s PCentroid)"
    and cn: "conns s + started (counters s PGeom) + started (counters s PCentroid) = free"
    by (auto simp: count_phase_def)
  from n obtain p where p: "counters s p \<noteq> GFinished"
    by (auto simp: pending_def split: if_splits)
  have okp: "counter_ok q p (counters s p)"
    using ok by (cases p) auto
  show ?thesis
  proof (cases "counters s p = GStart")
    case True
    have "started (counters s PGeom) + started (counters s PCentroid) \<le> 1"
      using True by (cases p) (simp_all add: started_def)
    with cn free obtain k where "conns s = Suc k"
      by (cases "conns s") auto
    with True have "step q (CountRun p) s \<noteq> None"
      by (auto simp: step_def CountIntersects_def dbconn_def split: sum.splits)
    then show ?thesis by blast
  next
    case False
    with okp p have "counters s p = planned q p \<or> counters s p = GSendDone"
      by (auto simp: counter_ok_def)
    then have "step q (Sync (Counter p) Main) s \<noteq> None"
      using m
      by (cases p)
         (auto simp: step_def sending_def count_sending_def planned_def receive_def
            main_receive_def split: sum.splits)
    then show ?thesis by blast
  qed
qed

lemma start_count_stage: "count_stage q free (IntersectsFeature True free)"
  using start_count_phase by (simp add: count_stage_def)

lemma answers_not_failed:
  assumes "count_answer q PGeom = Inr cg" "count_answer q PCentroid = Inr cc"
  shows "\<not> failed q s"
proof
  assume "failed q s"
  then obtain p e where "count_answer q p = Inl e"
    by (auto simp: failed_def)
  with assms show False by (cases p) auto
qed

lemma count_loop_takes_error:
  "main s = CountLoop n cg cc ct \<Longrightarrow> counters s p = GSendErr e \<Longrightarrow>
   \<exists>s'. step q (Sync (Counter p) Main) s = Some s' \<and> main s' = Returned None (Some e)"
  by (simp add: step_def sending_def count_sending_def receive_def main_receive_def sent_def)

text \<open>
  C4. When the count statement of either partition fails, every run of
  \<open>IntersectsFeature\<close> is in the count stage: no page task is ever started, and when the
  function has returned it has returned the nil list together with the error of a failing
  count statement. Once a count operation has its error, the very next receive of the
  select loop can take it and then the function returns that error. With two permits
  free the function does return: as long as it has not, some goroutine can move, and no
  run has more than six steps.
\<close>

theorem count_error_fails_fast:
  assumes "count_answer q p = Inl e"
    and "exec q evs (IntersectsFeature True free) = Some s"
  shows "pages s = [] \<and>
    (\<forall>r err. main s = Returned r err \<longrightarrow>
       r = None \<and> (\<exists>p' e'. err = Some e' \<and> count_answer q p' = Inl e')) \<and>
    (\<forall>p' e'. counters s p' = GSendErr e' \<and> \<not> returned s \<longrightarrow>
       (\<exists>s'. step q (Sync (Counter p') Main) s = Some s' \<and> main s' = Returned None (Some e'))) \<and>
    (2 \<le> free \<and> \<not> returned s \<longrightarrow> (\<exists>ev s'. step q ev s = Some s')) \<and>
    length evs \<le> 6"
proof -
  have nf: "no_fetch q"
    using assms(1) by (cases p) (auto simp: no_fetch_def)
  have "phases q free s"
    using assms(2) by (rule reachable_phases)
  with nf have cs: "count_stage q free s"
    by (rule no_fetch_phases)
  have ne: "\<not> empty_done q s"
    using assms(1) by (cases p) (auto simp: empty_done_def)
  have 1: "pages s = []"
    using cs by (rule count_stage_pages)
  have 2: "\<forall>r err. main s = Returned r err \<longrightarrow>
       r = None \<and> (\<exists>p' e'. err = Some e' \<and> count_answer q p' = Inl e')"
    using cs ne by (auto simp: count_stage_def count_phase_def failed_def)
  have 3: "2 \<le> free \<and> \<not> returned s \<longrightarrow> (\<exists>ev s'. step q ev s = Some s')"
    using cs ne count_phase_progress [of q free s]
    by (auto simp: count_stage_def failed_def returned_def)
  have "length evs + steps_left s = 6"
    using exec_steps_left [OF nf start_count_stage assms(2)] by (simp add: start_steps_left)
  then have 4: "length evs \<le> 6" by simp
  have 5: "\<forall>p' e'. counters s p' = GSendErr e' \<and> \<not> returned s \<longrightarrow>
       (\<exists>s'. step q (Sync (Counter p') Main) s = Some s' \<and> main s' = Returned None (Some e'))"
    using cs ne count_loop_takes_error [of s]
    by (auto simp: count_stage_def failed_def returned_def count_phase_def)
  from 1 2 3 4 5 show ?thesis by blast
qed

text \<open>
  C5. When both count statements answer zero, no page task is ever started, and when
  \<open>IntersectsFeature\<close> has returned it has returned the empty (non-nil) list and a nil
  error. With two permits free the function does return: as long as it has not, some
  goroutine can move, and no run has more than six steps.
\<close>

theorem zero_counts_return_empty:
  assumes "count_answer q PGeom = Inr 0" and "count_answer q PCentroid = Inr 0"
    and "exec q evs (IntersectsFeature True free) = Some s"
  shows "pages s = [] \<and>
    (\<forall>r err. main s = Returned r err \<longrightarrow> r = Some [] \<and> err = None) \<and>
    (2 \<le> free \<and> \<not> returned s \<longrightarrow> (\<exists>ev s'. step q ev s = Some s')) \<and>
    length evs \<le> 6"
proof -
  have nf: "no_fetch q"
    using assms(1,2) by (auto simp: no_fetch_def)
  have "phases q free s"
    using assms(3) by (rule reachable_phases)
  with nf have cs: "count_stage q free s"
    by (rule no_fetch_phases)
  have ne: "\<not> failed q s"
    using assms(1,2) by (rule answers_not_failed)
  have 1: "pages s = []"
    using cs by (rule count_stage_pages)
  have 2: "\<forall>r err. main s = Returned r err \<longrightarrow> r = Some [] \<and> err = None"
    using cs ne by (auto simp: count_stage_def count_phase_def empty_done_def)
  have 3: "2 \<le> free \<and> \<not> returned s \<longrightarrow> (\<exists>ev s'. step q ev s = Some s')"
    using cs ne count_phase_progress [of q free s]
    by (auto simp: count_stage_def empty_done_def returned_def)
  have "length evs + steps_left s = 6"
    using exec_steps_left [OF nf start_count_stage assms(3)] by (simp add: start_steps_left)
  then have 4: "length evs \<le> 6" by simp
  from 1 2 3 4 show ?thesis by blast
qed

text \<open>
  C1. When both count statements succeed and one of the counts is positive,
  \<open>IntersectsFeature\<close> calls \<open>FetchIntersectsAsync\<close> in its own goroutine and never
  comes back from it: the rows and errors of the page tasks go to channels that only the
  second select loop reads, and the deferred \<open>done_ch <- true\<close> of
  \<open>FetchIntersectsAsync\<close> has no receiver. In no state of any run has the function
  returned, whatever the page fetches answer.
\<close>

theorem positive_total_never_returns:
  assumes "count_answer q PGeom = Inr cg" and "count_answer q PCentroid = Inr cc"
    and "0 < cg \<or> 0 < cc"
    and "exec q evs (IntersectsFeature True free) = Some s"
  shows "\<not> returned s"
proof -
  have "phases q free s"
    using assms(4) by (rule reachable_phases)
  moreover have "\<not> failed q s"
    using assms(1,2) by (rule answers_not_failed)
  moreover have "\<not> empty_done q s"
    using assms(1,2,3) by (auto simp: empty_done_def)
  ultimately have "count_phase q free s \<or> in_fetch q s"
    by (auto simp: phases_def)
  then show ?thesis
    by (auto simp: returned_def count_phase_def in_fetch_def)
qed

section \<open>The intersects query: concrete runs\<close>

text \<open>For evaluation, the ceiling of the quotient in integer arithmetic.\<close>

lemma iters_ceiling: "iters n limit = - ((- n) div limit)"
proof -
  have "- (real_of_int n / real_of_int limit) = real_of_int (- n) / real_of_int limit"
    by simp
  then show ?thesis
    by (simp only: iters_def ceiling_def floor_divide_of_int_eq)
qed

lemma partition_neq [simp]: "(x \<noteq> PGeom) = (x = PCentroid)" "(x \<noteq> PCentroid) = (x = PGeom)"
  by (cases x; simp)+

lemmas model_defs = step_def CountIntersects_def dbconn_def sending_def sent_def receive_def
  main_receive_def count_sending_def page_sending_def count_loop_def enter_geom_def
  enter_centroid_def final_loop_def drain_def after_stage_def iters_ceiling offsets_from.simps
  count_expected_def IntersectsFeature_def

text \<open>
  The query with one matching row: after the counts, main waits for \<open>fetch_ch\<close> while
  the only page task waits for a receiver on \<open>rows_ch\<close>; no step is possible.
\<close>

lemma run_one_stuck: "exec q_one run_one (IntersectsFeature True 10) = Some stuck_one"
  by (simp add: q_one_def run_one_def stuck_one_def model_defs fun_eq_iff split: partition.splits)

lemma stuck_one_deadlock: "step q_one ev stuck_one = None"
proof (cases ev)
  case (Sync g h)
  show ?thesis
  proof (cases h)
    case Main
    then show ?thesis using Sync
      by (cases g) (auto simp: stuck_one_def model_defs split: partition.splits)
  qed (auto simp: Sync step_def receive_def split: option.splits)
next
  case (CountRun p)
  then show ?thesis by (simp add: stuck_one_def step_def)
next
  case MainAcquire
  then show ?thesis by (simp add: stuck_one_def step_def)
next
  case (PageRun i)
  then show ?thesis by (cases i) (simp_all add: stuck_one_def step_def)
qed

text \<open>The run of \<open>q_one\<close> satisfies the hypotheses of C1.\<close>

theorem positive_total_never_returns_witness:
  "count_answer q_one PGeom = Inr 1 \<and> count_answer q_one PCentroid = Inr 0 \<and>
   exec q_one run_one (IntersectsFeature True 10) = Some stuck_one \<and> \<not> returned stuck_one"
proof -
  have a: "count_answer q_one PGeom = Inr 1" "count_answer q_one PCentroid = Inr 0"
    by (simp_all add: q_one_def)
  have b: "(0::int) < 1 \<or> (0::int) < 0" by simp
  from positive_total_never_returns [OF a b run_one_stuck] a run_one_stuck
  show ?thesis by simp
qed

lemma run_err_end: "exec q_err run_err (IntersectsFeature True 2) = Some end_err"
  by (simp add: q_err_def run_err_def end_err_def model_defs fun_eq_iff split: partition.splits)

text \<open>The run of \<open>q_err\<close> satisfies the hypotheses of C4 and ends with the error returned.\<close>

theorem count_error_fails_fast_witness:
  "count_answer q_err PGeom = Inl (External ''bad connection'') \<and>
   exec q_err run_err (IntersectsFeature True 2) = Some end_err \<and>
   main end_err = Returned None (Some (External ''bad connection'')) \<and> pages end_err = []"
proof -
  have a: "count_answer q_err PGeom = Inl (External ''bad connection'')"
    by (simp add: q_err_def)
  from count_error_fails_fast [OF a run_err_end] a run_err_end
  show ?thesis by (simp add: end_err_def)
qed

lemma run_zero_end: "exec q_zero run_zero (IntersectsFeature True 2) = Some end_zero"
  by (simp add: q_zero_def run_zero_def end_zero_def model_defs fun_eq_iff split: partition.splits)

text \<open>The run of \<open>q_zero\<close> satisfies the hypotheses of C5 and ends with the empty list returned.\<close>

theorem zero_counts_return_empty_witness:
  "count_answer q_zero PGeom = Inr 0 \<and> count_answer q_zero PCentroid = Inr 0 \<and>
   exec q_zero run_zero (IntersectsFeature True 2) = Some end_zero \<and>
   main end_zero = Returned (Some []) None \<and> pages end_zero = []"
proof -
  have a: "count_answer q_zero PGeom = Inr 0" "count_answer q_zero PCentroid = Inr 0"
    by (simp_all add: q_zero_def)
  from zero_counts_return_empty [OF a run_zero_end] a run_zero_end
  show ?thesis by (simp add: end_zero_def)
qed

section \<open>Page arithmetic\<close>

text \<open>
  For a positive page size the spawn loop starts \<open>n div limit + 1\<close> page tasks, while
  the drain loop waits for \<open>iters n limit\<close>, the ceiling of the quotient, completion
  signals. The two agree unless the page size divides the count.
\<close>

lemma offsets_from_length:
  "0 < limit \<Longrightarrow> offset \<le> n + limit \<Longrightarrow>
   \<exists>offs. offsets_from offset n limit = Some offs \<and> int (length offs) = (n + limit - offset) div limit"
proof (induction offset n limit rule: offsets_from.induct)
  case (1 offset n limit)
  show ?case
  proof (cases "offset \<le> n")
    case True
    with 1 obtain offs where o: "offsets_from (offset + limit) n limit = Some offs"
        "int (length offs) = (n + limit - (offset + limit)) div limit"
      by fastforce
    have "n + limit - offset = limit + (n - offset)" by simp
    then have "(n + limit - offset) div limit = (n - offset) div limit + 1"
      using 1(2) by (simp only: div_add_self1)
    with o True 1(2) show ?thesis
      by (subst offsets_from.simps) (simp add: algebra_simps)
  next
    case False
    with 1(2,3) have "(n + limit - offset) div limit = 0"
      by (simp add: div_pos_pos_trivial)
    with False show ?thesis
      by (subst offsets_from.simps) simp
  qed
qed

lemma spawned_pages:
  "0 < limit \<Longrightarrow> 0 \<le> n \<Longrightarrow>
   \<exists>offs. offsets_from 0 n limit = Some offs \<and> int (length offs) = n div limit + 1"
  using offsets_from_length [of limit 0 n] by (simp add: div_add_self2)

text \<open>
  C2. With the default page size 1000 and 1000 expected rows the spawn loop starts two
  page tasks, at offsets 0 and 1000, while \<open>iters\<close>, the number of completion signals
  the caller drains, is 1: the number of tasks is not the ceiling of the quotient.
\<close>

theorem page_tasks_exceed_drained:
  "offsets_from 0 1000 1000 = Some [0, 1000] \<and> iters 1000 1000 = 1"
  by (simp add: offsets_from.simps iters_ceiling)

section \<open>Permits\<close>

text \<open>
  C3. \<open>CountIntersects\<close> and \<open>GetById\<close> take a permit and return without giving it
  back: called with \<open>n + 1\<close> free permits they return, on success and on failure alike,
  with \<open>n\<close> left.
\<close>

theorem count_keeps_permit:
  "CountIntersects answer (Suc n) = Some (answer, n) \<and> GetById row (Suc n) = Some (row, n)"
  by (simp add: CountIntersects_def GetById_def dbconn_def)

section \<open>Indexing one feature: lemmas\<close>

lemma say_fields [simp]:
  "whosonfirst (say l w) = whosonfirst w" "permits (say l w) = permits w"
  "logged (say l w) = logged w @ l"
  by (simp_all add: say_def)

text \<open>
  C10. For a feature whose id is 0, \<open>IndexFeature\<close> returns nil after logging that it
  skips the record: the table and the permits are untouched and nothing else of the
  feature (geometry, placetype, repo, centroid) is looked at, since the result is the same
  for every feature with that id.
\<close>

theorem zero_id_is_skipped:
  "feat_id f = 0 \<Longrightarrow>
   IndexFeature c cl f now w = (Returns None, w\<lparr>logged := logged w @ [SkippingEarth]\<rparr>)"
  by (simp add: IndexFeature_def say_def)

text \<open>
  The ways through \<open>prepare\<close>: it ends the call with an error or a panic (never with
  nil), or every step succeeded and the statement is the one chosen for the derived
  geometry and centroid.
\<close>

lemma geometry_step_Inl: "geometry_step cl f = (Inl out, l) \<Longrightarrow> out \<noteq> Returns None"
  by (auto simp: geometry_step_def split: if_splits option.splits)


lemma prepare_cases:
  obtains (early) out l where "prepare c cl f now = (Inl out, l)" "out \<noteq> Returns None"
  | (ready) str_geom sc0 str_centroid l1 pt_id repo hash l where
      "geometry_step cl f = (Inr (str_geom, sc0), l1)"
      "centroid_step f sc0 = Inr str_centroid"
      "GetPlacetypeByName c (feat_placetype f) = Inr pt_id"
      "wof_repo f = Some repo" "feat_geom_hash f = Inr hash"
      "prepare c cl f now =
         (Inr (choose_statement str_geom str_centroid, assemble f pt_id repo hash now), l)"
proof (cases "geometry_step cl f")
  case (Pair r1 l1)
  show ?thesis
  proof (cases r1)
    case (Inl out)
    with Pair have "prepare c cl f now = (Inl out, l1)" "out \<noteq> Returns None"
      using geometry_step_Inl by (auto simp: prepare_def)
    then show ?thesis by (rule early)
  next
    case (Inr gc)
    obtain str_geom sc0 where gc: "gc = (str_geom, sc0)" by (cases gc)
    note g = Pair [unfolded Inr gc]
    show ?thesis
    proof (cases "centroid_step f sc0")
      case (Inl e)
      with g have "prepare c cl f now = (Inl (Returns (Some e)), l1)"
        by (simp add: prepare_def)
      then show ?thesis by (rule early) simp
    next
      case ce: (Inr str_centroid)
      show ?thesis
      proof (cases "GetPlacetypeByName c (feat_placetype f)")
        case (Inl e)
        with g ce have "prepare c cl f now = (Inl (Returns (Some e)), l1)"
          by (simp add: prepare_def)
        then show ?thesis by (rule early) simp
      next
        case pt: (Inr pt_id)
        show ?thesis
        proof (cases "wof_repo f")
          case None
          with g ce pt have "prepare c cl f now = (Inl (Returns (Some (CantFindRepo (feat_id f)))), l1)"
            by (simp add: prepare_def)
          then show ?thesis by (rule early) simp
        next
          case (Some repo)
          show ?thesis
          proof (cases "repo = []")
            case True
            with g ce pt Some have "prepare c cl f now = (Inl (Returns (Some (MissingRepo (feat_id f)))), l1)"
              by (simp add: prepare_def)
            then show ?thesis by (rule early) simp
          next
            case False
            show ?thesis
            proof (cases "feat_geom_hash f")
              case (Inl e)
              with g ce pt Some False have "\<exists>l. prepare c cl f now = (Inl (Returns (Some e)), l)"
                by (simp add: prepare_def Let_def)
              then show ?thesis using early by blast
            next
              case (Inr hash)
              with g ce pt Some False have "\<exists>l. prepare c cl f now =
                  (Inr (choose_statement str_geom str_centroid, assemble f pt_id repo hash now), l)"
                by (simp add: prepare_def Let_def assemble_def)
              then show ?thesis using ready [OF g ce pt Some Inr] by blast
            qed
          qed
        qed
      qed
    qed
  qed
qed

lemma geometry_step_Debug: "geometry_step (cl\<lparr>Debug := b\<rparr>) f = geometry_step cl f"
  by (simp add: geometry_step_def)

lemma prepare_Debug: "prepare c (cl\<lparr>Debug := b\<rparr>) f now = prepare c cl f now"
  by (simp add: prepare_def geometry_step_Debug Let_def
        cong: sum.case_cong prod.case_cong option.case_cong if_cong)

text \<open>What \<open>IndexFeature\<close> does with the result of \<open>prepare\<close>.\<close>

lemma IndexFeature_early:
  "feat_id f \<noteq> 0 \<Longrightarrow> prepare c cl f now = (Inl out, l) \<Longrightarrow>
   IndexFeature c cl f now w = (out, say l w)"
  by (simp add: IndexFeature_def)

lemma IndexFeature_dry:
  "feat_id f \<noteq> 0 \<Longrightarrow> prepare c cl f now = (Inr (stmt, a), l) \<Longrightarrow> Debug cl \<Longrightarrow>
   IndexFeature c cl f now w = (Returns None, say l w)"
  by (simp add: IndexFeature_def)

lemma IndexFeature_write:
  "feat_id f \<noteq> 0 \<Longrightarrow> prepare c cl f now = (Inr (stmt, a), l) \<Longrightarrow> \<not> Debug cl \<Longrightarrow>
   IndexFeature c cl f now w =
     (if permits w = 0 then (Blocks, say l w)
      else case db_Exec c stmt a (whosonfirst w) of
             Inl e \<Rightarrow> (Exits, say (l @ [ExecFailed e stmt]) (w\<lparr>permits := permits w - 1\<rparr>))
           | Inr tbl \<Rightarrow> (Returns None, say l (w\<lparr>whosonfirst := tbl\<rparr>)))"
  by (cases "permits w") (auto simp: IndexFeature_def dbconn_def say_def split: sum.splits)

text \<open>
  The permit \<open>IndexFeature\<close> takes for its write is back when it returns (the deferred
  \<open>client.conns <- true\<close>).
\<close>

lemma IndexFeature_returns_permit:
  assumes "IndexFeature c cl f now w = (Returns r, w')"
  shows "permits w' = permits w"
proof (cases "feat_id f = 0")
  case True
  with assms show ?thesis by (auto simp: IndexFeature_def)
next
  case False
  show ?thesis
  proof (cases rule: prepare_cases [of c cl f now])
    case (early out l)
    with False assms show ?thesis by (auto simp: IndexFeature_early)
  next
    case (ready sg sc0 sc l1 pt_id repo hash l)
    with False assms show ?thesis
      by (cases "Debug cl")
         (auto simp: IndexFeature_dry IndexFeature_write split: if_splits sum.splits)
  qed
qed

text \<open>
  C9. With \<open>client.Debug\<close> set, \<open>IndexFeature\<close> leaves the table and the permits as they
  are; for a feature with a non-zero id it goes through every step of \<open>prepare\<close>
  (geometry and centroid derivation, placetype lookup, repo and metadata assembly, hash),
  returning the error of a failing step and nil otherwise; in particular it returns nil
  for every feature that is indexed successfully without the toggle.
\<close>

theorem debug_writes_nothing:
  assumes "Debug cl"
  shows "whosonfirst (snd (IndexFeature c cl f now w)) = whosonfirst w \<and>
    permits (snd (IndexFeature c cl f now w)) = permits w \<and>
    (feat_id f \<noteq> 0 \<longrightarrow>
       IndexFeature c cl f now w =
         (case prepare c cl f now of
            (Inl out, l) \<Rightarrow> (out, say l w)
          | (Inr sa, l) \<Rightarrow> (Returns None, say l w))) \<and>
    (\<forall>w'. IndexFeature c (cl\<lparr>Debug := False\<rparr>) f now w = (Returns None, w') \<longrightarrow>
       fst (IndexFeature c cl f now w) = Returns None)"
proof (cases "feat_id f = 0")
  case True
  then show ?thesis by (simp add: IndexFeature_def)
next
  case False
  show ?thesis
  proof (cases rule: prepare_cases [of c cl f now])
    case (early out l)
    have "IndexFeature c (cl\<lparr>Debug := False\<rparr>) f now w = (out, say l w)"
      using False early(1) by (simp add: IndexFeature_early prepare_Debug)
    with early False show ?thesis
      by (simp add: IndexFeature_early)
  next
    case (ready str_geom sc0 str_centroid l1 pt_id repo hash l)
    with False assms show ?thesis
      by (simp add: IndexFeature_dry)
  qed
qed




lemma arg_assemble [simp]:
  "arg_wofid (assemble f pt_id repo hash now) = feat_id f"
  "arg_lastmod (assemble f pt_id repo hash now) = now"
  by (simp_all add: assemble_def)








text \<open>
  \<open>IndexFeature\<close> reads the table and the permits only, never the log; an error it
  returns is decided before the world is looked at and leaves table and permits alone.
\<close>

lemma same_store_say [simp]: "same_store (say l w) w' = same_store w w'"
  "same_store w (say l w') = same_store w w'"
  by (simp_all add: same_store_def)

lemma same_result_refl [simp]: "same_result r r"
  by (simp add: same_result_def same_store_def)



lemma say_Nil [simp]: "say [] w = w"
  by (simp add: say_def)










section \<open>Indexing: concrete runs\<close>

text \<open>Evaluating the model on the concrete feature.\<close>

lemma prepare_point:
  "prepare c_demo cl_demo point_feature now =
     (Inr (UpsertCentroidOnly (feat_geometry point_feature), args_demo now), [])"
  by (simp add: prepare_def geometry_step_def centroid_step_def choose_statement_def
      c_demo_def cl_demo_def point_feature_def args_demo_def)

lemma demo_facts: "feat_id point_feature \<noteq> 0" "\<not> Debug cl_demo"
  by (simp_all add: point_feature_def cl_demo_def)

lemma arg_wofid_demo [simp]: "arg_wofid (args_demo now) = 101"
  by (simp add: args_demo_def)

lemma index_point_fresh:
  "IndexFeature c_demo cl_demo point_feature now w_demo = (Returns None, w_indexed now)"
  unfolding IndexFeature_write [OF demo_facts(1) prepare_point demo_facts(2)]
  by (simp add: db_Exec_def c_demo_def w_demo_def w_indexed_def say_def)


text \<open>The feature with its id set to 0 is skipped.\<close>

theorem zero_id_is_skipped_witness:
  "feat_id (point_feature\<lparr>feat_id := 0\<rparr>) = 0 \<and>
   IndexFeature c_demo cl_demo (point_feature\<lparr>feat_id := 0\<rparr>) ''t1'' w_demo =
     (Returns None, w_demo\<lparr>logged := [SkippingEarth]\<rparr>)"
  using zero_id_is_skipped [of "point_feature\<lparr>feat_id := 0\<rparr>" c_demo cl_demo "''t1''" w_demo]
  by (simp add: w_demo_def)

text \<open>The point feature in a dry run: nil, and the table stays empty.\<close>

theorem debug_writes_nothing_witness:
  "Debug (cl_demo\<lparr>Debug := True\<rparr>) \<and>
   whosonfirst (snd (IndexFeature c_demo (cl_demo\<lparr>Debug := True\<rparr>) point_feature ''t1'' w_demo)) = Map.empty \<and>
   fst (IndexFeature c_demo (cl_demo\<lparr>Debug := True\<rparr>) point_feature ''t1'' w_demo) = Returns None"
proof -
  have d: "Debug (cl_demo\<lparr>Debug := True\<rparr>)" by simp
  have "IndexFeature c_demo (cl_demo\<lparr>Debug := False\<rparr>) point_feature ''t1'' w_demo =
      (Returns None, w_indexed ''t1'')"
    using index_point_fresh [of "''t1''"] by (simp add: cl_demo_def)
  with debug_writes_nothing [OF d, of c_demo point_feature "''t1''" w_demo] d
  show ?thesis by (simp add: w_demo_def)
qed








end
